theory Spec2Isabelle
  imports Main "HOL-Library.AList"
begin

section \<open>Data model of \<^verbatim>\<open>gather_categories.py\<close>\<close>

text \<open>
  A result dictionary (\<^verbatim>\<open>dict[str, str]\<close>) is an association list in insertion order.
  A value is \<open>None\<close> where Python holds \<^verbatim>\<open>None\<close> (the \<^verbatim>\<open>fulltext\<close> of a row read with
  \<^verbatim>\<open>.get\<close>), and \<open>Some s\<close> for the string \<open>s\<close>.
\<close>

type_synonym entry = "(string \<times> string option) list"

text \<open>\<^verbatim>\<open>d.get(k)\<close>: \<^verbatim>\<open>None\<close> for a missing key as well as for a stored \<^verbatim>\<open>None\<close>.\<close>

definition dict_get :: "entry \<Rightarrow> string \<Rightarrow> string option" where
  "dict_get d k = (case map_of d k of None \<Rightarrow> None | Some v \<Rightarrow> v)"

text \<open>Truth value of \<^verbatim>\<open>fpt\<close> in \<^verbatim>\<open>if fpt and ...\<close>: \<^verbatim>\<open>None\<close> and \<^verbatim>\<open>""\<close> are false.\<close>

fun truthy :: "string option \<Rightarrow> bool" where
  "truthy None = False"
| "truthy (Some s) = (s \<noteq> [])"

text \<open>How an f-string renders a value read with \<^verbatim>\<open>.get\<close>.\<close>

fun py_str :: "string option \<Rightarrow> string" where
  "py_str None = ''None''"
| "py_str (Some s) = s"

text \<open>
  One row yielded by \<^verbatim>\<open>osw_obj.mw_site.ask(query)\<close>: the page title under \<^verbatim>\<open>fulltext\<close> and,
  under \<^verbatim>\<open>printouts\<close>, the list of printed values of every alias.
\<close>

record ask_row =
  fulltext :: "string option"
  printouts :: "(string \<times> string list) list"

text \<open>
  The wiki behind \<^verbatim>\<open>osw_obj\<close>: the answer to each ask query, \<open>None\<close> where \<^verbatim>\<open>ask\<close> returns
  \<^verbatim>\<open>None\<close>. The answer to a query does not change during one call.
\<close>

type_synonym site = "string \<Rightarrow> ask_row list option"

text \<open>Exceptions, and the effects a caller can observe: queries sent and warnings logged.\<close>

datatype error = ValueError string | IndexError

datatype event =
  Ask string
| Warning int string
  \<comment> \<open>\<^verbatim>\<open>_logger.warning(f"Max depth {max_depth} reached at category {category_fpt}")\<close>\<close>

type_synonym 'a io = "(error + 'a) \<times> event list"

section \<open>\<^verbatim>\<open>query_return_dict_list\<close>\<close>

text \<open>
  \<^verbatim>\<open>re.findall(r".*?(\|\?[A-Za-z_]*=([A-Za-z_]+))", query)\<close>, second group of every match:
  scanning from the left, the next \<^verbatim>\<open>|?\<close> that is followed by a (possibly empty) run of
  letters and underscores, \<^verbatim>\<open>=\<close>, and a non-empty run of letters and underscores; the
  alias is that last run, taken as long as possible, and the scan goes on behind it.
\<close>

definition is_field_char :: "char \<Rightarrow> bool" where
  "is_field_char c =
     (let n = (of_char c :: nat) in (65 \<le> n \<and> n \<le> 90) \<or> (97 \<le> n \<and> n \<le> 122) \<or> n = 95)"

function findall_fields :: "string \<Rightarrow> string list" where
  "findall_fields [] = []"
| "findall_fields (c # cs) =
     (if c = CHR ''|'' then
        (case cs of
           d # rest \<Rightarrow>
             (if d = CHR ''?'' then
                (case dropWhile is_field_char rest of
                   e # rest2 \<Rightarrow>
                     (if e = CHR ''='' \<and> takeWhile is_field_char rest2 \<noteq> [] then
                        takeWhile is_field_char rest2
                          # findall_fields (dropWhile is_field_char rest2)
                      else findall_fields cs)
                 | [] \<Rightarrow> findall_fields cs)
              else findall_fields cs)
         | [] \<Rightarrow> findall_fields cs)
      else findall_fields cs)"
  by pat_completeness auto
termination
proof (relation "measure length")
  fix c :: char and cs rest rest2 :: string and d e :: char
  assume cs: "cs = d # rest" and dw: "dropWhile is_field_char rest = e # rest2"
  have "length (dropWhile is_field_char rest2) \<le> length rest2"
    by (rule length_dropWhile_le)
  moreover have "length (e # rest2) \<le> length rest"
    using length_dropWhile_le [of is_field_char rest] dw by simp
  ultimately show "(dropWhile is_field_char rest2, c # cs) \<in> measure length"
    using cs by simp
qed simp_all

text \<open>
  The value stored for one requested field: the first printed value, or \<^verbatim>\<open>""\<close> when the
  row has none.
\<close>

definition field_value :: "ask_row \<Rightarrow> string \<Rightarrow> string option" where
  "field_value result field =
     (case map_of (printouts result) field of
        Some (v # _) \<Rightarrow> Some v
      | _ \<Rightarrow> Some [])"

definition make_entry :: "string list \<Rightarrow> ask_row \<Rightarrow> entry" where
  "make_entry return_fields result =
     fold (\<lambda>field entry. AList.update field (field_value result field) entry)
       return_fields [(''title'', fulltext result)]"

definition query_return_dict_list :: "site \<Rightarrow> string \<Rightarrow> entry list \<times> event list" where
  "query_return_dict_list osw_obj query =
     (let return_fields = findall_fields query in
      case osw_obj query of
        None \<Rightarrow> ([], [Ask query])
      | Some results \<Rightarrow> (map (make_entry return_fields) results, [Ask query]))"

section \<open>The traversal\<close>

text \<open>The four query strings, after \<^verbatim>\<open>.replace\<close> has put the page title in.\<close>

definition self_query :: "string \<Rightarrow> string" where
  "self_query category_fpt = ''[[:'' @ category_fpt @ '']]|?HasName=name''"

definition subclass_query :: "string \<Rightarrow> string" where
  "subclass_query category_fpt = ''[[SubClassOf::'' @ category_fpt @ '']]|?HasName=name''"

definition metacat_query :: "string \<Rightarrow> string" where
  "metacat_query subcat_fpt = ''[[-HasMetaCategory::'' @ subcat_fpt @ '']]|?HasName=name''"

definition schema_query :: "string \<Rightarrow> string" where
  "schema_query category_fpt = ''[[HasSchema::'' @ category_fpt @ '']]|?HasName=name''"

text \<open>
  The loop that removes duplicates by \<^verbatim>\<open>title\<close>, written twice in the source (in
  \<^verbatim>\<open>get_subcategories\<close> and in \<^verbatim>\<open>get_all_instances_and_subcategories\<close>) with the same
  body: \<open>fpt_list\<close> and \<open>unique_items\<close> are the two lists it appends to.
\<close>

fun unique_loop :: "entry list \<Rightarrow> string list \<Rightarrow> entry list \<Rightarrow> entry list" where
  "unique_loop [] fpt_list unique_items = unique_items"
| "unique_loop (item # items) fpt_list unique_items =
     (case dict_get item ''title'' of
        None \<Rightarrow> unique_loop items fpt_list unique_items
      | Some fpt \<Rightarrow>
          if fpt \<noteq> [] \<and> fpt \<notin> set fpt_list
          then unique_loop items (fpt_list @ [fpt]) (unique_items @ [item])
          else unique_loop items fpt_list unique_items)"

definition unique_by_title :: "entry list \<Rightarrow> entry list" where
  "unique_by_title items = unique_loop items [] []"

text \<open>
  The same loop without its accumulators, for the proofs: \<open>seen\<close> is the set of titles
  already in \<open>fpt_list\<close>.
\<close>

abbreviation title_of :: "entry \<Rightarrow> string option" where
  "title_of item \<equiv> dict_get item ''title''"

fun keep_first :: "string set \<Rightarrow> entry list \<Rightarrow> entry list" where
  "keep_first seen [] = []"
| "keep_first seen (item # items) =
     (case title_of item of
        None \<Rightarrow> keep_first seen items
      | Some fpt \<Rightarrow>
          if fpt \<noteq> [] \<and> fpt \<notin> seen then item # keep_first (insert fpt seen) items
          else keep_first seen items)"

text \<open>
  The first occurrences of a list of records, stated on positions: the record at a
  position stays exactly when its title is a non-empty string and no record before that
  position has the same title; the records that stay keep their order.
\<close>

definition first_occurrences :: "entry list \<Rightarrow> entry list" where
  "first_occurrences items =
     map (\<lambda>i. items ! i)
       (filter (\<lambda>i. truthy (title_of (items ! i))
                   \<and> title_of (items ! i) \<notin> title_of ` set (take i items))
          [0..<length items])"

text \<open>
  \<^verbatim>\<open>get_subcategories\<close>, and with it \<open>descend\<close>, the \<^verbatim>\<open>for result in results2\<close> loop of its
  body: the concatenation of what the recursive calls return, or the first exception.
\<close>

function get_subcategories :: "site \<Rightarrow> string \<Rightarrow> int \<Rightarrow> int \<Rightarrow> entry list io"
  and descend :: "site \<Rightarrow> entry list \<Rightarrow> int \<Rightarrow> int \<Rightarrow> entry list io"
where
  "get_subcategories osw_obj category_fpt depth max_depth =
     (if depth > max_depth then (Inr [], [Warning max_depth category_fpt])
      else
        (case query_return_dict_list osw_obj (self_query category_fpt) of
           (result1, ev1) \<Rightarrow>
             (case result1 of
                [] \<Rightarrow> (Inl (ValueError (''Category '' @ category_fpt @ '' not found'')), ev1)
              | r # _ \<Rightarrow>
                  (case query_return_dict_list osw_obj (subclass_query category_fpt) of
                     (results2, ev2) \<Rightarrow>
                       (case descend osw_obj results2 depth max_depth of
                          (Inl e, ev3) \<Rightarrow> (Inl e, ev1 @ ev2 @ ev3)
                        | (Inr subs, ev3) \<Rightarrow>
                            (Inr (unique_by_title ([r] @ results2 @ subs)),
                             ev1 @ ev2 @ ev3))))))"
| "descend osw_obj [] depth max_depth = (Inr [], [])"
| "descend osw_obj (result # results) depth max_depth =
     (case dict_get result ''title'' of
        None \<Rightarrow> descend osw_obj results depth max_depth
      | Some subcat_fpt \<Rightarrow>
          if subcat_fpt = [] then descend osw_obj results depth max_depth
          else
            (case get_subcategories osw_obj subcat_fpt (depth + 1) max_depth of
               (Inl e, ev) \<Rightarrow> (Inl e, ev)
             | (Inr sub_subcategories, ev) \<Rightarrow>
                 (case descend osw_obj results depth max_depth of
                    (Inl e, ev') \<Rightarrow> (Inl e, ev @ ev')
                  | (Inr others, ev') \<Rightarrow> (Inr (sub_subcategories @ others), ev @ ev'))))"
  by pat_completeness auto
termination
  by (relation "measures
        [\<lambda>x. case x of
            Inl (_, _, depth, max_depth) \<Rightarrow>
              (if depth > max_depth then 0 else 2 * nat (max_depth - depth + 1) + 2)
          | Inr (_, _, depth, max_depth) \<Rightarrow> 2 * nat (max_depth - depth + 1) + 1,
         \<lambda>x. case x of Inl _ \<Rightarrow> 0 | Inr (_, results, _, _) \<Rightarrow> length results]")
    auto

text \<open>
  \<^verbatim>\<open>get_subcategories_and_metacategories\<close>; \<open>metacategories_loop\<close> is its
  \<^verbatim>\<open>for subcat in subcategories\<close> loop, which returns the list \<open>metacategories\<close>.
\<close>

fun metacategories_loop :: "site \<Rightarrow> entry list \<Rightarrow> entry list \<times> event list" where
  "metacategories_loop osw_obj [] = ([], [])"
| "metacategories_loop osw_obj (subcat # subcategories) =
     (case dict_get subcat ''title'' of
        None \<Rightarrow> metacategories_loop osw_obj subcategories
      | Some subcat_fpt \<Rightarrow>
          if subcat_fpt = [] then metacategories_loop osw_obj subcategories
          else
            (case query_return_dict_list osw_obj (metacat_query subcat_fpt) of
               (metacat_results, ev) \<Rightarrow>
                 (case metacategories_loop osw_obj subcategories of
                    (metacategories, ev') \<Rightarrow> (metacat_results @ metacategories, ev @ ev'))))"

definition get_subcategories_and_metacategories :: "site \<Rightarrow> string \<Rightarrow> int \<Rightarrow> entry list io" where
  "get_subcategories_and_metacategories osw_obj category_fpt max_depth =
     (case get_subcategories osw_obj category_fpt 0 max_depth of
        (Inl e, ev) \<Rightarrow> (Inl e, ev)
      | (Inr subcategories, ev) \<Rightarrow>
          (case metacategories_loop osw_obj subcategories of
             (metacategories, ev') \<Rightarrow> (Inr (subcategories @ metacategories), ev @ ev')))"

text \<open>\<^verbatim>\<open>get_instances\<close>: it has no \<^verbatim>\<open>raise\<close>, so its result is a plain list.\<close>

definition get_instances :: "site \<Rightarrow> string \<Rightarrow> entry list \<times> event list" where
  "get_instances osw_obj category_fpt =
     (case query_return_dict_list osw_obj (self_query category_fpt) of
        (instances, ev1) \<Rightarrow>
          (case query_return_dict_list osw_obj (schema_query category_fpt) of
             (schema_instances, ev2) \<Rightarrow> (instances @ schema_instances, ev1 @ ev2)))"

text \<open>
  \<^verbatim>\<open>get_all_instances_and_subcategories\<close>; \<open>instances_loop\<close> is its
  \<^verbatim>\<open>for subcat in subcategories\<close> loop, returning what it appends to \<open>all_items\<close>.
\<close>

fun instances_loop :: "site \<Rightarrow> entry list \<Rightarrow> entry list \<times> event list" where
  "instances_loop osw_obj [] = ([], [])"
| "instances_loop osw_obj (subcat # subcategories) =
     (case dict_get subcat ''title'' of
        None \<Rightarrow> instances_loop osw_obj subcategories
      | Some subcat_fpt \<Rightarrow>
          if subcat_fpt = [] then instances_loop osw_obj subcategories
          else
            (case get_instances osw_obj subcat_fpt of
               (instances, ev) \<Rightarrow>
                 (case instances_loop osw_obj subcategories of
                    (appended, ev') \<Rightarrow> (instances @ appended, ev @ ev'))))"

definition get_all_instances_and_subcategories :: "site \<Rightarrow> string \<Rightarrow> int \<Rightarrow> entry list io" where
  "get_all_instances_and_subcategories osw_obj category_fpt max_depth =
     (case get_subcategories_and_metacategories osw_obj category_fpt max_depth of
        (Inl e, ev) \<Rightarrow> (Inl e, ev)
      | (Inr subcategories, ev) \<Rightarrow>
          (case instances_loop osw_obj subcategories of
             (appended, ev') \<Rightarrow> (Inr (unique_by_title (subcategories @ appended)), ev @ ev')))"

section \<open>The text renderer\<close>

text \<open>The line \<^verbatim>\<open>f'"{cat.get("title")}",  # {cat.get("name")}\n'\<close> of one record.\<close>

definition entry_line :: "entry \<Rightarrow> string" where
  "entry_line cat =
     [CHR 0x22] @ py_str (dict_get cat ''title'') @ [CHR 0x22] @ '',  # ''
       @ py_str (dict_get cat ''name'') @ [CHR 0x0A]"

text \<open>\<^verbatim>\<open>append_dict_to_string\<close>: \<^verbatim>\<open>dict_list[0]\<close> raises \<^verbatim>\<open>IndexError\<close> on the empty list.\<close>

definition append_dict_to_string :: "string \<Rightarrow> entry list \<Rightarrow> string \<Rightarrow> error + string" where
  "append_dict_to_string string dict_list note =
     (case dict_list of
        [] \<Rightarrow> Inl IndexError
      | first # _ \<Rightarrow>
          Inr (foldl (\<lambda>string cat. string @ entry_line cat)
                 (string @ [CHR 0x0A] @ ''# '' @ py_str (dict_get first ''name'') @ '' '' @ note
                    @ [CHR 0x0A])
                 dict_list))"

definition append_subcategories_to_string :: "string \<Rightarrow> string \<Rightarrow> site \<Rightarrow> string io" where
  "append_subcategories_to_string string category_fpt osw_obj =
     (case get_subcategories_and_metacategories osw_obj category_fpt 10 of
        (Inl e, ev) \<Rightarrow> (Inl e, ev)
      | (Inr subcats, ev) \<Rightarrow>
          (append_dict_to_string string subcats '', subcategories and meta categories'', ev))"

text \<open>
  \<^verbatim>\<open>append_instances_to_string\<close>: the header reads \<^verbatim>\<open>instances[0]\<close>, the lines are those of
  \<^verbatim>\<open>instances[1:]\<close>.
\<close>

definition append_instances_to_string :: "string \<Rightarrow> string \<Rightarrow> site \<Rightarrow> string io" where
  "append_instances_to_string string category_fpt osw_obj =
     (case get_instances osw_obj category_fpt of
        (instances, ev) \<Rightarrow>
          (case instances of
             [] \<Rightarrow> (Inl IndexError, ev)
           | first # others \<Rightarrow>
               (Inr (foldl (\<lambda>string inst. string @ entry_line inst)
                       (string @ [CHR 0x0A] @ ''# Instances of ''
                          @ py_str (dict_get first ''name'') @ [CHR 0x0A])
                       others),
                ev)))"

definition append_subcategories_and_instances_to_string ::
  "string \<Rightarrow> string \<Rightarrow> site \<Rightarrow> string io" where
  "append_subcategories_and_instances_to_string string category_fpt osw_obj =
     (case append_subcategories_to_string string category_fpt osw_obj of
        (Inl e, ev) \<Rightarrow> (Inl e, ev)
      | (Inr string1, ev) \<Rightarrow>
          (case append_instances_to_string string1 category_fpt osw_obj of
             (r, ev') \<Rightarrow> (r, ev @ ev')))"

definition append_all_subcategories_and_instances_to_string ::
  "string \<Rightarrow> string \<Rightarrow> site \<Rightarrow> string io" where
  "append_all_subcategories_and_instances_to_string string category_fpt osw_obj =
     (case get_all_instances_and_subcategories osw_obj category_fpt 10 of
        (Inl e, ev) \<Rightarrow> (Inl e, ev)
      | (Inr all_items, ev) \<Rightarrow>
          (append_dict_to_string string all_items ''and all subcategories and instances'', ev))"

section \<open>The enrichment loop of \<^verbatim>\<open>add_ontology_matches.py\<close>\<close>

text \<open>
  The attributes of an entity that the loop reads or writes: the page title that
  \<^verbatim>\<open>get_iri()\<close> returns, the texts of \<^verbatim>\<open>label\<close>, \<^verbatim>\<open>name\<close> and \<^verbatim>\<open>exact_ontology_match\<close>.
  The mapping file is \<open>data\<close>; the graph is the rows that the label query returns for an
  IRI, each with its \<^verbatim>\<open>prefLabel\<close> and its optional \<^verbatim>\<open>altLabel\<close>.
\<close>

record entity =
  iri :: string
  label :: "string list"
  name :: "string option"
  exact_ontology_match :: "string set option"

record label_row =
  prefLabel :: string
  altLabel :: "string option"

type_synonym graph = "string \<Rightarrow> label_row list"

text \<open>
  The body of \<^verbatim>\<open>for entity in entities\<close>: the entity afterwards, or the exception of
  \<^verbatim>\<open>entity.label[0]\<close>, together with the IRIs warned about. What it prints is left out.
\<close>

definition enrich_entity ::
  "(string \<rightharpoonup> string) \<Rightarrow> graph \<Rightarrow> entity \<Rightarrow> (error + entity) \<times> string list" where
  "enrich_entity data g ent =
     (case data (iri ent) of
        None \<Rightarrow> (Inr ent, [])
      | Some match \<Rightarrow>
          (case label ent of
             [] \<Rightarrow> (Inl IndexError, [])
           | _ # _ \<Rightarrow>
               (Inr (fold (\<lambda>row e. e\<lparr>name := Some (prefLabel row)\<rparr>) (g match)
                       (ent\<lparr>exact_ontology_match := Some {match}\<rparr>)),
                if length (g match) > 1 then [match] else [])))"

section \<open>Wikis: examples and assumptions\<close>

text \<open>A row for the page \<open>t\<close> whose \<^verbatim>\<open>HasName\<close> is \<open>n\<close>, and a wiki without pages.\<close>

definition page :: "string \<Rightarrow> string \<Rightarrow> ask_row" where
  "page t n = \<lparr>fulltext = Some t, printouts = [(''name'', [n])]\<rparr>"

definition empty_site :: site where
  "empty_site = (\<lambda>query. None)"

text \<open>
  The wiki of the manifest example: \<^verbatim>\<open>Cat:A\<close> with the subclass \<^verbatim>\<open>Cat:B\<close>, named Beta,
  which has the instance \<^verbatim>\<open>Item:1\<close>, named One. Every other query finds nothing.
\<close>

definition mock_site :: "string \<Rightarrow> site" where
  "mock_site a_name = map_of
     [(self_query ''Cat:A'', [page ''Cat:A'' a_name]),
      (subclass_query ''Cat:A'', [page ''Cat:B'' ''Beta'']),
      (self_query ''Cat:B'', [page ''Cat:B'' ''Beta'']),
      (schema_query ''Cat:B'', [page ''Item:1'' ''One''])]"

text \<open>
  A wiki where \<^verbatim>\<open>Cat:A\<close> has the subclass \<^verbatim>\<open>Cat:B\<close> and both have the meta category
  \<^verbatim>\<open>Cat:M\<close>.
\<close>

definition meta_site :: site where
  "meta_site = map_of
     [(self_query ''Cat:A'', [page ''Cat:A'' ''Alpha'']),
      (subclass_query ''Cat:A'', [page ''Cat:B'' ''Beta'']),
      (self_query ''Cat:B'', [page ''Cat:B'' ''Beta'']),
      (metacat_query ''Cat:A'', [page ''Cat:M'' ''Meta'']),
      (metacat_query ''Cat:B'', [page ''Cat:M'' ''Meta''])]"


text \<open>
  A wiki where the page \<^verbatim>\<open>Cat:C\<close> is returned by its self-lookup and also by the schema
  query for \<^verbatim>\<open>Cat:C\<close>.
\<close>

definition twice_site :: site where
  "twice_site = map_of
     [(self_query ''Cat:C'', [page ''Cat:C'' ''Gamma'']),
      (schema_query ''Cat:C'', [page ''Cat:C'' ''Gamma'', page ''Item:2'' ''Two''])]"

text \<open>A wiki with the subclass cycle \<^verbatim>\<open>Cat:A\<close>, \<^verbatim>\<open>Cat:B\<close>, \<^verbatim>\<open>Cat:A\<close>.\<close>

definition cycle_site :: site where
  "cycle_site = map_of
     [(self_query ''Cat:A'', [page ''Cat:A'' ''Alpha'']),
      (subclass_query ''Cat:A'', [page ''Cat:B'' ''Beta'']),
      (self_query ''Cat:B'', [page ''Cat:B'' ''Beta'']),
      (subclass_query ''Cat:B'', [page ''Cat:A'' ''Alpha''])]"

text \<open>
  A subclass chain in a wiki: a list of pages, each with its title and its record, where
  every page can be looked up, the subclass query of a page returns exactly the next page
  of the list, and that of the last page returns nothing.
\<close>

fun subclass_chain :: "site \<Rightarrow> (string \<times> entry) list \<Rightarrow> bool" where
  "subclass_chain osw_obj [] = True"
| "subclass_chain osw_obj ((t, e) # nodes) =
     (t \<noteq> [] \<and> title_of e = Some t
      \<and> take 1 (fst (query_return_dict_list osw_obj (self_query t))) = [e]
      \<and> fst (query_return_dict_list osw_obj (subclass_query t)) = map snd (take 1 nodes)
      \<and> subclass_chain osw_obj nodes)"

text \<open>The warnings among the events of a call.\<close>

fun is_warning :: "event \<Rightarrow> bool" where
  "is_warning (Warning max_depth category_fpt) = True"
| "is_warning (Ask query) = False"

text \<open>The chain \<^verbatim>\<open>Cat:A\<close>, \<^verbatim>\<open>Cat:B\<close>, \<^verbatim>\<open>Cat:C\<close> of three pages.\<close>

definition chain_site :: site where
  "chain_site = map_of
     [(self_query ''Cat:A'', [page ''Cat:A'' ''Alpha'']),
      (subclass_query ''Cat:A'', [page ''Cat:B'' ''Beta'']),
      (self_query ''Cat:B'', [page ''Cat:B'' ''Beta'']),
      (subclass_query ''Cat:B'', [page ''Cat:C'' ''Gamma'']),
      (self_query ''Cat:C'', [page ''Cat:C'' ''Gamma''])]"


section \<open>Properties of the duplicate removal\<close>

lemma unique_loop_keep_first:
  "unique_loop items fpt_list acc = acc @ keep_first (set fpt_list) items"
  by (induction items arbitrary: fpt_list acc) (auto split: option.splits)

lemma unique_by_title_keep_first: "unique_by_title items = keep_first {} items"
  by (simp add: unique_by_title_def unique_loop_keep_first)

lemma keep_first_titles:
  "x \<in> set (keep_first seen items) \<Longrightarrow>
     x \<in> set items \<and> (\<exists>t. title_of x = Some t \<and> t \<noteq> [] \<and> t \<notin> seen)"
  by (induction items arbitrary: seen) (auto split: option.splits if_splits)

lemma keep_first_distinct: "distinct (map title_of (keep_first seen items))"
proof (induction items arbitrary: seen)
  case Nil
  show ?case by simp
next
  case (Cons item items)
  show ?case
  proof (cases "title_of item")
    case None
    then show ?thesis using Cons.IH by simp
  next
    case (Some fpt)
    show ?thesis
    proof (cases "fpt \<noteq> [] \<and> fpt \<notin> seen")
      case True
      have "Some fpt \<notin> title_of ` set (keep_first (insert fpt seen) items)"
        using keep_first_titles [of _ "insert fpt seen" items] by force
      then show ?thesis using Some True Cons.IH by simp
    next
      case False
      then show ?thesis using Some Cons.IH by auto
    qed
  qed
qed

lemma keep_first_complete:
  "x \<in> set items \<Longrightarrow> title_of x = Some t \<Longrightarrow> t \<noteq> [] \<Longrightarrow> t \<notin> seen \<Longrightarrow>
     Some t \<in> title_of ` set (keep_first seen items)"
proof (induction items arbitrary: seen)
  case Nil
  then show ?case by simp
next
  case (Cons item items)
  show ?case
  proof (cases "title_of item = Some t")
    case True
    then show ?thesis using Cons.prems by simp
  next
    case False
    then have x: "x \<in> set items" using Cons.prems by auto
    show ?thesis
    proof (cases "title_of item")
      case None
      then show ?thesis using Cons.IH [OF x Cons.prems(2,3,4)] by simp
    next
      case (Some u)
      then have "t \<notin> insert u seen" using False Cons.prems by auto
      from Cons.IH [OF x Cons.prems(2,3) this] Cons.IH [OF x Cons.prems(2,3,4)]
      show ?thesis using Some by auto
    qed
  qed
qed



lemma keep_first_id:
  "distinct (map title_of items) \<Longrightarrow> \<forall>x\<in>set items. \<exists>t. title_of x = Some t \<and> t \<noteq> [] \<and> t \<notin> seen \<Longrightarrow>
     keep_first seen items = items"
proof (induction items arbitrary: seen)
  case Nil
  show ?case by simp
next
  case (Cons item items)
  then obtain t where t: "title_of item = Some t" "t \<noteq> []" "t \<notin> seen" by auto
  have "\<forall>x\<in>set items. \<exists>u. title_of x = Some u \<and> u \<noteq> [] \<and> u \<notin> insert t seen"
    using Cons.prems t by force
  then show ?case using Cons t by simp
qed

lemma keep_first_snoc:
  "keep_first seen (items @ [x]) =
     keep_first seen items
       @ (if truthy (title_of x) \<and> title_of x \<notin> Some ` seen
             \<and> title_of x \<notin> title_of ` set items
          then [x] else [])"
proof (induction items arbitrary: seen)
  case Nil
  show ?case by (cases "title_of x") auto
next
  case (Cons item items)
  show ?case
  proof (cases "title_of item")
    case None
    then show ?thesis using Cons.IH [of seen] by (cases "title_of x") auto
  next
    case (Some fpt)
    show ?thesis
      using Some Cons.IH [of seen] Cons.IH [of "insert fpt seen"]
      by (cases "title_of x") auto
  qed
qed

lemma first_occurrences_snoc:
  "first_occurrences (items @ [x]) =
     first_occurrences items
       @ (if truthy (title_of x) \<and> title_of x \<notin> title_of ` set items then [x] else [])"
proof -
  let ?keep = "\<lambda>ys i. truthy (title_of (ys ! i)) \<and> title_of (ys ! i) \<notin> title_of ` set (take i ys)"
  have f: "filter (?keep (items @ [x])) [0..<length items] = filter (?keep items) [0..<length items]"
    by (rule filter_cong) (auto simp: nth_append)
  have m: "map (\<lambda>i. (items @ [x]) ! i) (filter (?keep items) [0..<length items])
             = map (\<lambda>i. items ! i) (filter (?keep items) [0..<length items])"
    by (rule map_cong) (auto simp: nth_append)
  show ?thesis
    unfolding first_occurrences_def using f m by simp
qed

lemma unique_by_title_first_occurrences:
  "unique_by_title items = first_occurrences items"
proof (induction items rule: rev_induct)
  case Nil
  show ?case by (simp add: unique_by_title_keep_first first_occurrences_def)
next
  case (snoc x items)
  then show ?case
    by (simp add: unique_by_title_keep_first keep_first_snoc first_occurrences_snoc)
qed

section \<open>Queries and their trace\<close>

lemmas site_eval = page_def self_query_def subclass_query_def schema_query_def metacat_query_def
  query_return_dict_list_def make_entry_def field_value_def is_field_char_def dict_get_def
  entry_line_def

declare get_subcategories.simps [simp del]

lemma query_return_dict_list_pair:
  "query_return_dict_list osw_obj query = (fst (query_return_dict_list osw_obj query), [Ask query])"
  by (simp add: query_return_dict_list_def split: option.splits)

lemma get_instances_eq:
  "get_instances osw_obj c =
     (fst (query_return_dict_list osw_obj (self_query c))
        @ fst (query_return_dict_list osw_obj (schema_query c)),
      [Ask (self_query c), Ask (schema_query c)])"
  unfolding get_instances_def
  by (subst query_return_dict_list_pair, subst (2) query_return_dict_list_pair) simp

lemma get_subcategories_not_found:
  assumes "depth \<le> max_depth"
    and "fst (query_return_dict_list osw_obj (self_query category_fpt)) = []"
  shows "get_subcategories osw_obj category_fpt depth max_depth =
           (Inl (ValueError (''Category '' @ category_fpt @ '' not found'')),
            [Ask (self_query category_fpt)])"
  using assms
  by (subst get_subcategories.simps, subst query_return_dict_list_pair) simp

section \<open>Errors\<close>

text \<open>
  C3. When the self-lookup of the category returns no rows, \<open>get_subcategories\<close> raises the
  \<^verbatim>\<open>ValueError\<close> "Category ... not found" that carries the identifier, and the only query
  sent is that self-lookup: no subclass query follows. Nothing catches the exception: the
  two functions built on \<open>get_subcategories\<close> end with the same exception and the same
  single query, and so does the loop over the children when the missing category is a
  child reached by the recursion.
\<close>

theorem category_not_found_propagates:
  assumes "fst (query_return_dict_list osw_obj (self_query category_fpt)) = []"
  shows "(depth \<le> max_depth \<longrightarrow>
            get_subcategories osw_obj category_fpt depth max_depth =
              (Inl (ValueError (''Category '' @ category_fpt @ '' not found'')),
               [Ask (self_query category_fpt)])
          \<and> (title_of result = Some category_fpt \<and> category_fpt \<noteq> [] \<longrightarrow>
               descend osw_obj (result # results) (depth - 1) max_depth =
                 (Inl (ValueError (''Category '' @ category_fpt @ '' not found'')),
                  [Ask (self_query category_fpt)])))
       \<and> (0 \<le> max_depth \<longrightarrow>
            get_subcategories_and_metacategories osw_obj category_fpt max_depth =
              (Inl (ValueError (''Category '' @ category_fpt @ '' not found'')),
               [Ask (self_query category_fpt)])
          \<and> get_all_instances_and_subcategories osw_obj category_fpt max_depth =
              (Inl (ValueError (''Category '' @ category_fpt @ '' not found'')),
               [Ask (self_query category_fpt)]))"
  using assms
  by (simp add: get_subcategories_not_found get_subcategories_and_metacategories_def
      get_all_instances_and_subcategories_def)

theorem category_not_found_propagates_witness:
  "get_subcategories empty_site ''NonexistentCategory'' 0 5 =
     (Inl (ValueError ''Category NonexistentCategory not found''),
      [Ask ''[[:NonexistentCategory]]|?HasName=name''])
   \<and> descend empty_site [[(''title'', Some ''NonexistentCategory'')]] (-1) 5 =
     (Inl (ValueError ''Category NonexistentCategory not found''),
      [Ask ''[[:NonexistentCategory]]|?HasName=name''])
   \<and> get_all_instances_and_subcategories empty_site ''NonexistentCategory'' 5 =
     (Inl (ValueError ''Category NonexistentCategory not found''),
      [Ask ''[[:NonexistentCategory]]|?HasName=name''])"
  using category_not_found_propagates
    [of empty_site "''NonexistentCategory''" 0 5 "[(''title'', Some ''NonexistentCategory'')]" "[]"]
  by (simp add: empty_site_def query_return_dict_list_def self_query_def dict_get_def)

section \<open>Instances\<close>

text \<open>
  C9. When the self-lookup of a category returns a row, \<open>get_instances\<close> returns that row
  first, then the other rows of the self-lookup, then the rows of the schema query; and
  \<open>append_instances_to_string\<close> prints the name of that first record in the header and
  one line for each of the records behind it.
\<close>

theorem get_instances_starts_with_category:
  assumes "fst (query_return_dict_list osw_obj (self_query category_fpt)) = r # rs"
  shows "fst (get_instances osw_obj category_fpt) =
           r # rs @ fst (query_return_dict_list osw_obj (schema_query category_fpt))
       \<and> fst (append_instances_to_string string category_fpt osw_obj) =
           Inr (foldl (\<lambda>string inst. string @ entry_line inst)
                  (string @ [CHR 0x0A] @ ''# Instances of '' @ py_str (dict_get r ''name'')
                     @ [CHR 0x0A])
                  (rs @ fst (query_return_dict_list osw_obj (schema_query category_fpt))))"
  using assms by (simp add: append_instances_to_string_def get_instances_eq)

theorem get_instances_starts_with_category_witness:
  \<open>fst (get_instances (mock_site ''Alpha'') ''Cat:B'') =
     [[(''title'', Some ''Cat:B''), (''name'', Some ''Beta'')],
      [(''title'', Some ''Item:1''), (''name'', Some ''One'')]]
   \<and> fst (append_instances_to_string ''# manifest'' ''Cat:B'' (mock_site ''Alpha'')) =
     Inr ''# manifest\<newline># Instances of Beta\<newline>"Item:1",  # One\<newline>''\<close>
  using get_instances_starts_with_category
    [of "mock_site ''Alpha''" "''Cat:B''" "[(''title'', Some ''Cat:B''), (''name'', Some ''Beta'')]"
        "[]" "''# manifest''"]
  by (simp add: mock_site_def site_eval)

text \<open>
  C10. \<open>get_instances\<close> checks nothing: when both of its queries return no rows it returns
  the empty list, having sent the two queries. \<open>append_instances_to_string\<close> then raises
  \<^verbatim>\<open>IndexError\<close>, and so does \<open>append_dict_to_string\<close> on the empty list; on a non-empty
  list each of the two returns a string.
\<close>

theorem get_instances_no_existence_check:
  assumes "fst (query_return_dict_list osw_obj (self_query category_fpt)) = []"
    and "fst (query_return_dict_list osw_obj (schema_query category_fpt)) = []"
  shows "get_instances osw_obj category_fpt =
           ([], [Ask (self_query category_fpt), Ask (schema_query category_fpt)])
       \<and> fst (append_instances_to_string string category_fpt osw_obj) = Inl IndexError
       \<and> append_dict_to_string string [] note = Inl IndexError
       \<and> (\<forall>dict_list. dict_list \<noteq> [] \<longrightarrow>
             (\<exists>out. append_dict_to_string string dict_list note = Inr out))
       \<and> (\<forall>osw' c'. fst (get_instances osw' c') \<noteq> [] \<longrightarrow>
             (\<exists>out. fst (append_instances_to_string string c' osw') = Inr out))"
  using assms
  by (auto simp: append_instances_to_string_def get_instances_eq append_dict_to_string_def
      split: list.splits)

theorem get_instances_no_existence_check_witness:
  "get_instances empty_site ''Category:Missing'' =
     ([], [Ask ''[[:Category:Missing]]|?HasName=name'',
           Ask ''[[HasSchema::Category:Missing]]|?HasName=name''])
   \<and> fst (append_instances_to_string [] ''Category:Missing'' empty_site) = Inl IndexError
   \<and> append_dict_to_string [] [] ''note'' = Inl IndexError
   \<and> (\<exists>out. append_dict_to_string [] [[(''title'', Some ''Cat:B'')]] ''note'' = Inr out)
   \<and> (\<exists>out. fst (append_instances_to_string [] ''Cat:B'' (mock_site ''Alpha'')) = Inr out)"
proof -
  have 1: "[[(''title'', Some ''Cat:B'')]] \<noteq> ([] :: entry list)" by simp
  have 2: "fst (get_instances (mock_site ''Alpha'') ''Cat:B'') \<noteq> []"
    by (simp add: get_instances_eq mock_site_def site_eval)
  show ?thesis
    using get_instances_no_existence_check [of empty_site "''Category:Missing''" "[]" "''note''"] 1 2
    by (simp add: empty_site_def site_eval)
qed

section \<open>The manifest\<close>

lemma mock_subcategories:
  "get_subcategories (mock_site a_name) ''Cat:A'' 0 10 =
     (Inr [[(''title'', Some ''Cat:A''), (''name'', Some a_name)],
           [(''title'', Some ''Cat:B''), (''name'', Some ''Beta'')]],
      [Ask (self_query ''Cat:A''), Ask (subclass_query ''Cat:A''),
       Ask (self_query ''Cat:B''), Ask (subclass_query ''Cat:B'')])"
  by (simp add: get_subcategories.simps mock_site_def site_eval unique_by_title_def)

text \<open>
  C7. On the wiki of the example, whatever the name of \<^verbatim>\<open>Cat:A\<close> is,
  \<open>append_all_subcategories_and_instances_to_string\<close> started on the empty string returns
  the header followed by exactly three lines: the line of \<^verbatim>\<open>Cat:A\<close> with its name, the
  line of \<^verbatim>\<open>Cat:B\<close> with Beta and the line of \<^verbatim>\<open>Item:1\<close> with One, in this order.
\<close>

theorem manifest_example:
  \<open>fst (append_all_subcategories_and_instances_to_string [] ''Cat:A'' (mock_site a_name)) =
     Inr (''\<newline># '' @ a_name @ '' and all subcategories and instances\<newline>''
          @ ''"Cat:A",  # '' @ a_name @ ''\<newline>''
          @ ''"Cat:B",  # Beta\<newline>''
          @ ''"Item:1",  # One\<newline>'')\<close>
  unfolding append_all_subcategories_and_instances_to_string_def
    get_all_instances_and_subcategories_def get_subcategories_and_metacategories_def
    mock_subcategories
  by (simp add: get_instances_eq append_dict_to_string_def unique_by_title_def mock_site_def
      site_eval)

section \<open>The ontology alignment\<close>

lemma fold_name_fields:
  "iri (fold (\<lambda>row e. e\<lparr>name := Some (prefLabel row)\<rparr>) rows ent) = iri ent
   \<and> label (fold (\<lambda>row e. e\<lparr>name := Some (prefLabel row)\<rparr>) rows ent) = label ent
   \<and> exact_ontology_match (fold (\<lambda>row e. e\<lparr>name := Some (prefLabel row)\<rparr>) rows ent)
       = exact_ontology_match ent"
  by (induction rows arbitrary: ent) simp_all

lemma fold_name_last:
  "rows \<noteq> [] \<Longrightarrow>
     fold (\<lambda>row e. e\<lparr>name := Some (prefLabel row)\<rparr>) rows ent
       = ent\<lparr>name := Some (prefLabel (last rows))\<rparr>"
  by (induction rows arbitrary: ent) auto

lemma fold_name_absorb:
  "fold (\<lambda>row e. e\<lparr>name := Some (prefLabel row)\<rparr>) rows
     (fold (\<lambda>row e. e\<lparr>name := Some (prefLabel row)\<rparr>) rows ent
        \<lparr>exact_ontology_match := m\<rparr>)
   = fold (\<lambda>row e. e\<lparr>name := Some (prefLabel row)\<rparr>) rows (ent\<lparr>exact_ontology_match := m\<rparr>)"
  by (cases "rows = []") (simp_all add: fold_name_last)

text \<open>
  C8. For a fixed mapping and graph, running the body of the loop on an entity and then
  again on the entity it produced gives the same outcome as running it once: the same
  entity, or the same exception when the first run already raised.
\<close>

theorem enrich_entity_idempotent:
  "(case fst (enrich_entity data g ent) of
      Inl e \<Rightarrow> Inl e
    | Inr ent' \<Rightarrow> fst (enrich_entity data g ent'))
   = fst (enrich_entity data g ent)"
  by (auto simp: enrich_entity_def fold_name_fields fold_name_absorb
      split: option.splits list.splits)

section \<open>Uniqueness of titles\<close>

lemma get_subcategories_truncated:
  "max_depth < depth \<Longrightarrow>
     get_subcategories osw_obj category_fpt depth max_depth =
       (Inr [], [Warning max_depth category_fpt])"
  by (subst get_subcategories.simps) simp

lemma get_subcategories_found:
  assumes "depth \<le> max_depth"
    and "fst (query_return_dict_list osw_obj (self_query category_fpt)) = r # rs"
  shows "get_subcategories osw_obj category_fpt depth max_depth =
     (case descend osw_obj (fst (query_return_dict_list osw_obj (subclass_query category_fpt)))
             depth max_depth of
        (Inl e, ev3) \<Rightarrow>
          (Inl e, Ask (self_query category_fpt) # Ask (subclass_query category_fpt) # ev3)
      | (Inr subs, ev3) \<Rightarrow>
          (Inr (unique_by_title
                  (r # fst (query_return_dict_list osw_obj (subclass_query category_fpt)) @ subs)),
           Ask (self_query category_fpt) # Ask (subclass_query category_fpt) # ev3))"
  using assms
  by (subst get_subcategories.simps, subst query_return_dict_list_pair,
      subst (2) query_return_dict_list_pair) (simp split: prod.splits sum.splits)

lemma get_subcategories_is_unique:
  assumes "fst (get_subcategories osw_obj category_fpt depth max_depth) = Inr xs"
  shows "\<exists>raw. xs = unique_by_title raw"
proof (cases "max_depth < depth")
  case True
  then have "xs = unique_by_title []"
    using assms by (simp add: get_subcategories_truncated unique_by_title_def)
  then show ?thesis ..
next
  case False
  show ?thesis
  proof (cases "fst (query_return_dict_list osw_obj (self_query category_fpt))")
    case Nil
    then show ?thesis using assms False by (simp add: get_subcategories_not_found)
  next
    case (Cons r rs)
    then show ?thesis using assms False
      by (auto simp: get_subcategories_found split: prod.splits sum.splits)
  qed
qed

lemma unique_by_title_distinct:
  "distinct (map title_of (unique_by_title items))
   \<and> (\<forall>x\<in>set (unique_by_title items). truthy (title_of x))"
proof -
  have "truthy (title_of x)" if "x \<in> set (keep_first {} items)" for x
    using keep_first_titles [OF that] by auto
  then show ?thesis
    by (simp add: unique_by_title_keep_first keep_first_distinct)
qed

lemma get_subcategories_first_occurrences:
  assumes "depth \<le> max_depth"
    and "fst (get_subcategories osw_obj category_fpt depth max_depth) = Inr xs"
  shows "\<exists>r rs subs.
           fst (query_return_dict_list osw_obj (self_query category_fpt)) = r # rs
           \<and> fst (descend osw_obj
                     (fst (query_return_dict_list osw_obj (subclass_query category_fpt)))
                     depth max_depth) = Inr subs
           \<and> xs = first_occurrences
                    (r # fst (query_return_dict_list osw_obj (subclass_query category_fpt)) @ subs)"
proof (cases "fst (query_return_dict_list osw_obj (self_query category_fpt))")
  case Nil
  then show ?thesis using assms by (simp add: get_subcategories_not_found)
next
  case (Cons r rs)
  then show ?thesis using assms
    by (auto simp: get_subcategories_found unique_by_title_first_occurrences
        split: prod.splits sum.splits)
qed

text \<open>
  C1, as the code has it. A list returned by \<open>get_subcategories\<close> is exactly the first
  occurrences, in discovery order, of the list the call has collected: the record of the
  category, then the rows of its subclass query, then what the calls for the children
  returned; a call cut off by the depth bound returns the empty list. A list returned by
  \<open>get_all_instances_and_subcategories\<close> is exactly the first occurrences of the
  categories followed by the instances collected for them. So neither has a title twice,
  every title in them is a non-empty string, and of two records with one title the
  earlier stays and the later is dropped. \<open>get_subcategories_and_metacategories\<close> removes
  nothing: it returns the duplicate-free list of \<open>get_subcategories\<close> followed by the rows
  of the meta category queries as they come. The loop of the source computes the first
  occurrences of any list.
\<close>

theorem dedup_by_title:
  "(max_depth < depth \<longrightarrow>
      fst (get_subcategories osw_obj category_fpt depth max_depth) = Inr [])
   \<and> (depth \<le> max_depth
        \<and> fst (get_subcategories osw_obj category_fpt depth max_depth) = Inr xs \<longrightarrow>
      (\<exists>r rs subs.
          fst (query_return_dict_list osw_obj (self_query category_fpt)) = r # rs
          \<and> fst (descend osw_obj
                    (fst (query_return_dict_list osw_obj (subclass_query category_fpt)))
                    depth max_depth) = Inr subs
          \<and> xs = first_occurrences
                   (r # fst (query_return_dict_list osw_obj (subclass_query category_fpt))
                      @ subs)))
   \<and> (fst (get_subcategories osw_obj category_fpt depth max_depth) = Inr xs \<longrightarrow>
      distinct (map title_of xs) \<and> (\<forall>x\<in>set xs. truthy (title_of x)))
   \<and> (fst (get_all_instances_and_subcategories osw_obj category_fpt max_depth) = Inr ys \<longrightarrow>
      distinct (map title_of ys) \<and> (\<forall>x\<in>set ys. truthy (title_of x))
      \<and> (\<exists>zs. fst (get_subcategories_and_metacategories osw_obj category_fpt max_depth) = Inr zs
            \<and> ys = first_occurrences (zs @ fst (instances_loop osw_obj zs))))
   \<and> (fst (get_subcategories_and_metacategories osw_obj category_fpt max_depth) = Inr zs \<longrightarrow>
      (\<exists>subcategories.
          fst (get_subcategories osw_obj category_fpt 0 max_depth) = Inr subcategories
          \<and> distinct (map title_of subcategories)
          \<and> zs = subcategories @ fst (metacategories_loop osw_obj subcategories)))
   \<and> unique_by_title items = first_occurrences items"
proof (intro conjI impI)
  assume "max_depth < depth"
  then show "fst (get_subcategories osw_obj category_fpt depth max_depth) = Inr []"
    by (simp add: get_subcategories_truncated)
next
  assume "depth \<le> max_depth
        \<and> fst (get_subcategories osw_obj category_fpt depth max_depth) = Inr xs"
  then show "\<exists>r rs subs.
          fst (query_return_dict_list osw_obj (self_query category_fpt)) = r # rs
          \<and> fst (descend osw_obj
                    (fst (query_return_dict_list osw_obj (subclass_query category_fpt)))
                    depth max_depth) = Inr subs
          \<and> xs = first_occurrences
                   (r # fst (query_return_dict_list osw_obj (subclass_query category_fpt))
                      @ subs)"
    using get_subcategories_first_occurrences by blast
next
  assume "fst (get_subcategories osw_obj category_fpt depth max_depth) = Inr xs"
  then obtain raw where "xs = unique_by_title raw"
    using get_subcategories_is_unique by blast
  then show "distinct (map title_of xs)" and "\<forall>x\<in>set xs. truthy (title_of x)"
    using unique_by_title_distinct [of raw] by simp_all
next
  assume a: "fst (get_all_instances_and_subcategories osw_obj category_fpt max_depth) = Inr ys"
  then obtain zs where zs:
    "fst (get_subcategories_and_metacategories osw_obj category_fpt max_depth) = Inr zs"
    "ys = unique_by_title (zs @ fst (instances_loop osw_obj zs))"
    by (auto simp: get_all_instances_and_subcategories_def split: prod.splits sum.splits)
  show "distinct (map title_of ys)" and "\<forall>x\<in>set ys. truthy (title_of x)"
    using zs(2) unique_by_title_distinct [of "zs @ fst (instances_loop osw_obj zs)"] by simp_all
  show "\<exists>zs. fst (get_subcategories_and_metacategories osw_obj category_fpt max_depth) = Inr zs
            \<and> ys = first_occurrences (zs @ fst (instances_loop osw_obj zs))"
    using zs by (auto simp: unique_by_title_first_occurrences)
next
  assume a: "fst (get_subcategories_and_metacategories osw_obj category_fpt max_depth) = Inr zs"
  then obtain subcategories where s:
    "fst (get_subcategories osw_obj category_fpt 0 max_depth) = Inr subcategories"
    "zs = subcategories @ fst (metacategories_loop osw_obj subcategories)"
    by (auto simp: get_subcategories_and_metacategories_def split: prod.splits sum.splits)
  obtain raw where "subcategories = unique_by_title raw"
    using get_subcategories_is_unique [OF s(1)] by blast
  then have "distinct (map title_of subcategories)"
    using unique_by_title_distinct [of raw] by simp
  then show "\<exists>subcategories.
          fst (get_subcategories osw_obj category_fpt 0 max_depth) = Inr subcategories
          \<and> distinct (map title_of subcategories)
          \<and> zs = subcategories @ fst (metacategories_loop osw_obj subcategories)"
    using s by blast
next
  show "unique_by_title items = first_occurrences items"
    by (rule unique_by_title_first_occurrences)
qed

text \<open>
  C1, as stated, fails for \<open>get_subcategories_and_metacategories\<close>: where two
  subcategories have the same meta category, its record is returned twice.
\<close>

theorem metacategories_not_deduplicated:
  "fst (get_subcategories_and_metacategories meta_site ''Cat:A'' 5) =
     Inr [[(''title'', Some ''Cat:A''), (''name'', Some ''Alpha'')],
          [(''title'', Some ''Cat:B''), (''name'', Some ''Beta'')],
          [(''title'', Some ''Cat:M''), (''name'', Some ''Meta'')],
          [(''title'', Some ''Cat:M''), (''name'', Some ''Meta'')]]"
  by (simp add: get_subcategories_and_metacategories_def get_subcategories.simps meta_site_def
      site_eval unique_by_title_def)

theorem dedup_by_title_witness:
  "fst (get_subcategories meta_site ''Cat:B'' 6 5) = Inr []
   \<and> fst (get_subcategories meta_site ''Cat:A'' 0 5) =
       Inr [[(''title'', Some ''Cat:A''), (''name'', Some ''Alpha'')],
            [(''title'', Some ''Cat:B''), (''name'', Some ''Beta'')]]
   \<and> [[(''title'', Some ''Cat:A''), (''name'', Some ''Alpha'')],
       [(''title'', Some ''Cat:B''), (''name'', Some ''Beta'')]] =
      first_occurrences
        [[(''title'', Some ''Cat:A''), (''name'', Some ''Alpha'')],
         [(''title'', Some ''Cat:B''), (''name'', Some ''Beta'')],
         [(''title'', Some ''Cat:B''), (''name'', Some ''Beta'')]]
   \<and> fst (get_all_instances_and_subcategories meta_site ''Cat:A'' 5) =
       Inr [[(''title'', Some ''Cat:A''), (''name'', Some ''Alpha'')],
            [(''title'', Some ''Cat:B''), (''name'', Some ''Beta'')],
            [(''title'', Some ''Cat:M''), (''name'', Some ''Meta'')]]
   \<and> [[(''title'', Some ''Cat:A''), (''name'', Some ''Alpha'')],
       [(''title'', Some ''Cat:B''), (''name'', Some ''Beta'')],
       [(''title'', Some ''Cat:M''), (''name'', Some ''Meta'')]] =
      first_occurrences
        [[(''title'', Some ''Cat:A''), (''name'', Some ''Alpha'')],
         [(''title'', Some ''Cat:B''), (''name'', Some ''Beta'')],
         [(''title'', Some ''Cat:M''), (''name'', Some ''Meta'')],
         [(''title'', Some ''Cat:M''), (''name'', Some ''Meta'')],
         [(''title'', Some ''Cat:A''), (''name'', Some ''Alpha'')],
         [(''title'', Some ''Cat:B''), (''name'', Some ''Beta'')]]
   \<and> fst (get_subcategories_and_metacategories meta_site ''Cat:A'' 5) =
       Inr ([[(''title'', Some ''Cat:A''), (''name'', Some ''Alpha'')],
             [(''title'', Some ''Cat:B''), (''name'', Some ''Beta'')]]
            @ [[(''title'', Some ''Cat:M''), (''name'', Some ''Meta'')],
               [(''title'', Some ''Cat:M''), (''name'', Some ''Meta'')]])"
proof -
  let ?a = "[(''title'', Some ''Cat:A''), (''name'', Some ''Alpha'')]"
  let ?b = "[(''title'', Some ''Cat:B''), (''name'', Some ''Beta'')]"
  let ?m = "[(''title'', Some ''Cat:M''), (''name'', Some ''Meta'')]"
  have 1: "fst (get_subcategories meta_site ''Cat:A'' 0 5) = Inr [?a, ?b]"
    by (simp add: get_subcategories.simps meta_site_def site_eval unique_by_title_def)
  have 2: "fst (get_all_instances_and_subcategories meta_site ''Cat:A'' 5) = Inr [?a, ?b, ?m]"
    by (simp add: get_all_instances_and_subcategories_def get_subcategories_and_metacategories_def
        get_instances_eq get_subcategories.simps meta_site_def site_eval unique_by_title_def)
  have 3: "fst (get_subcategories_and_metacategories meta_site ''Cat:A'' 5) = Inr [?a, ?b, ?m, ?m]"
    by (simp add: get_subcategories_and_metacategories_def get_subcategories.simps meta_site_def
        site_eval unique_by_title_def)
  have 4: "fst (query_return_dict_list meta_site (self_query ''Cat:A'')) = [?a]"
    "fst (query_return_dict_list meta_site (subclass_query ''Cat:A'')) = [?b]"
    "fst (descend meta_site [?b] 0 5) = Inr [?b]"
    by (simp_all add: get_subcategories.simps meta_site_def site_eval unique_by_title_def)
  have 5: "fst (instances_loop meta_site [?a, ?b, ?m, ?m]) = [?a, ?b]"
    by (simp add: get_instances_eq meta_site_def site_eval)
  have 6: "(5::int) < 6" "(0::int) \<le> 5" by simp_all
  show ?thesis
    using dedup_by_title [of 5 6 meta_site "''Cat:B''"]
      dedup_by_title [of 5 0 meta_site "''Cat:A''" "[?a, ?b]" "[?a, ?b, ?m]" "[?a, ?b, ?m, ?m]"]
      1 2 3 4 5 6
    by (simp del: descend.simps instances_loop.simps metacategories_loop.simps)
qed

section \<open>The root category\<close>

lemma query_eq_iff [simp]:
  "self_query a = self_query b \<longleftrightarrow> a = b"
  "subclass_query a = subclass_query b \<longleftrightarrow> a = b"
  "metacat_query a = metacat_query b \<longleftrightarrow> a = b"
  "schema_query a = schema_query b \<longleftrightarrow> a = b"
  "self_query a \<noteq> subclass_query b" "subclass_query b \<noteq> self_query a"
  "self_query a \<noteq> metacat_query b" "metacat_query b \<noteq> self_query a"
  "self_query a \<noteq> schema_query b" "schema_query b \<noteq> self_query a"
  "subclass_query a \<noteq> metacat_query b" "metacat_query b \<noteq> subclass_query a"
  "subclass_query a \<noteq> schema_query b" "schema_query b \<noteq> subclass_query a"
  "metacat_query a \<noteq> schema_query b" "schema_query b \<noteq> metacat_query a"
  by (simp_all add: self_query_def subclass_query_def metacat_query_def schema_query_def)







section \<open>Instances found twice\<close>

lemma instances_loop_contains:
  "n \<in> set cats \<Longrightarrow> title_of n = Some t \<Longrightarrow> t \<noteq> [] \<Longrightarrow>
     set (fst (get_instances osw_obj t)) \<subseteq> set (fst (instances_loop osw_obj cats))"
  by (induction cats) (auto split: option.splits prod.splits)

lemma distinct_filter_one:
  "distinct (map f xs) \<Longrightarrow> x \<in> set xs \<Longrightarrow> length (filter (\<lambda>y. f y = f x) xs) = 1"
proof (induction xs)
  case Nil
  then show ?case by simp
next
  case (Cons a xs)
  show ?case
  proof (cases "f a = f x")
    case True
    then have "f x \<notin> f ` set xs"
      using Cons.prems(1) by simp
    then have "\<forall>y\<in>set xs. f y \<noteq> f x"
      by (metis imageI)
    then have "filter (\<lambda>y. f y = f x) xs = []"
      by (simp add: filter_empty_conv)
    then show ?thesis using True by simp
  next
    case False
    then show ?thesis using Cons by auto
  qed
qed

text \<open>
  C6. \<open>get_instances\<close> is the rows of the self-lookup followed by the rows of the schema
  query, with nothing removed: a record that each of the two queries returns once is in
  its result twice. When the category is one of those that
  \<open>get_all_instances_and_subcategories\<close> collects the instances of, and the record has a
  non-empty title, the list returned by \<open>get_all_instances_and_subcategories\<close> has
  exactly one record of that title.
\<close>

theorem instance_twice_then_once:
  assumes "fst (get_subcategories_and_metacategories osw_obj root max_depth) = Inr cats"
    and "n \<in> set cats" and "title_of n = Some category_fpt" and "category_fpt \<noteq> []"
    and "count_list (fst (query_return_dict_list osw_obj (self_query category_fpt))) x = 1"
    and "count_list (fst (query_return_dict_list osw_obj (schema_query category_fpt))) x = 1"
    and "truthy (title_of x)"
  shows "fst (get_instances osw_obj category_fpt) =
           fst (query_return_dict_list osw_obj (self_query category_fpt))
             @ fst (query_return_dict_list osw_obj (schema_query category_fpt))
       \<and> count_list (fst (get_instances osw_obj category_fpt)) x = 2
       \<and> (\<exists>items. fst (get_all_instances_and_subcategories osw_obj root max_depth) = Inr items
             \<and> length (filter (\<lambda>y. title_of y = title_of x) items) = 1)"
proof (intro conjI)
  show eq: "fst (get_instances osw_obj category_fpt) =
           fst (query_return_dict_list osw_obj (self_query category_fpt))
             @ fst (query_return_dict_list osw_obj (schema_query category_fpt))"
    by (simp add: get_instances_eq)
  show two: "count_list (fst (get_instances osw_obj category_fpt)) x = 2"
    using assms(5,6) by (simp add: eq)
  let ?all = "cats @ fst (instances_loop osw_obj cats)"
  have items: "fst (get_all_instances_and_subcategories osw_obj root max_depth)
                 = Inr (unique_by_title ?all)"
    using assms(1)
    by (cases "get_subcategories_and_metacategories osw_obj root max_depth")
       (auto simp: get_all_instances_and_subcategories_def split: prod.splits)
  have "x \<in> set (fst (get_instances osw_obj category_fpt))"
    using two count_list_0_iff [of "fst (get_instances osw_obj category_fpt)" x] by auto
  then have "x \<in> set ?all"
    using instances_loop_contains [OF assms(2,3,4), of osw_obj] by auto
  moreover obtain t where t: "title_of x = Some t" "t \<noteq> []"
    using assms(7) by (cases "title_of x") auto
  ultimately have "title_of x \<in> title_of ` set (unique_by_title ?all)"
    using keep_first_complete [of x ?all t "{}"] by (simp add: unique_by_title_keep_first)
  then obtain y where y: "y \<in> set (unique_by_title ?all)" "title_of y = title_of x"
    by auto
  have "length (filter (\<lambda>z. title_of z = title_of y) (unique_by_title ?all)) = 1"
    using distinct_filter_one [of title_of "unique_by_title ?all" y] y(1)
      unique_by_title_distinct [of ?all] by simp
  then show "\<exists>items. fst (get_all_instances_and_subcategories osw_obj root max_depth) = Inr items
             \<and> length (filter (\<lambda>y. title_of y = title_of x) items) = 1"
    using items y(2) by simp
qed

theorem instance_twice_then_once_witness:
  "fst (get_instances twice_site ''Cat:C'') =
     [[(''title'', Some ''Cat:C''), (''name'', Some ''Gamma'')],
      [(''title'', Some ''Cat:C''), (''name'', Some ''Gamma'')],
      [(''title'', Some ''Item:2''), (''name'', Some ''Two'')]]
   \<and> count_list (fst (get_instances twice_site ''Cat:C''))
        [(''title'', Some ''Cat:C''), (''name'', Some ''Gamma'')] = 2
   \<and> (\<exists>items. fst (get_all_instances_and_subcategories twice_site ''Cat:C'' 5) = Inr items
        \<and> length (filter (\<lambda>y. title_of y = Some ''Cat:C'') items) = 1)"
proof -
  let ?c = "[(''title'', Some ''Cat:C''), (''name'', Some ''Gamma'')]"
  have 1: "fst (get_subcategories_and_metacategories twice_site ''Cat:C'' 5) = Inr [?c]"
    by (simp add: get_subcategories_and_metacategories_def get_subcategories.simps
        twice_site_def site_eval unique_by_title_def)
  have 2: "?c \<in> set [?c]" by simp
  have 3: "title_of ?c = Some ''Cat:C''" by (simp add: dict_get_def)
  have 4: "''Cat:C'' \<noteq> []" by simp
  have 5: "count_list (fst (query_return_dict_list twice_site (self_query ''Cat:C''))) ?c = 1"
    by (simp add: twice_site_def site_eval)
  have 6: "count_list (fst (query_return_dict_list twice_site (schema_query ''Cat:C''))) ?c = 1"
    by (simp add: twice_site_def site_eval)
  have 7: "truthy (title_of ?c)" by (simp add: dict_get_def)
  show ?thesis
    using instance_twice_then_once [OF 1 2 3 4 5 6 7]
    by (simp add: twice_site_def site_eval)
qed

section \<open>Cycles\<close>

lemma descend_single:
  "title_of x = Some t \<Longrightarrow> t \<noteq> [] \<Longrightarrow>
     descend osw_obj [x] depth max_depth = get_subcategories osw_obj t (depth + 1) max_depth"
  by (simp split: prod.splits sum.splits)

lemma get_subcategories_one_child:
  assumes "depth \<le> max_depth"
    and "fst (query_return_dict_list osw_obj (self_query category_fpt)) = r # rs"
    and "fst (query_return_dict_list osw_obj (subclass_query category_fpt)) = [child]"
    and "title_of child = Some t" and "t \<noteq> []"
    and "fst (get_subcategories osw_obj t (depth + 1) max_depth) = Inr subs"
  shows "fst (get_subcategories osw_obj category_fpt depth max_depth)
           = Inr (unique_by_title (r # child # subs))"
proof -
  obtain ev where "get_subcategories osw_obj t (depth + 1) max_depth = (Inr subs, ev)"
    using assms(6) by (cases "get_subcategories osw_obj t (depth + 1) max_depth") simp
  then show ?thesis
    unfolding get_subcategories_found [OF assms(1,2)] assms(3) descend_single [OF assms(4,5)]
    by simp
qed

lemma cycle_aux:
  assumes ab: "a \<noteq> b" "a \<noteq> []" "b \<noteq> []"
    and self_a: "fst (query_return_dict_list osw_obj (self_query a)) = ra # ras"
    and sub_a: "fst (query_return_dict_list osw_obj (subclass_query a)) = [rb]"
    and self_b: "fst (query_return_dict_list osw_obj (self_query b)) = rb' # rbs"
    and sub_b: "fst (query_return_dict_list osw_obj (subclass_query b)) = [ra']"
    and titles: "title_of ra = Some a" "title_of rb = Some b"
      "title_of ra' = Some a" "title_of rb' = Some b"
  shows "depth \<le> max_depth \<Longrightarrow> nat (max_depth - depth) = k \<Longrightarrow>
           fst (get_subcategories osw_obj a depth max_depth) = Inr [ra, rb]
         \<and> fst (get_subcategories osw_obj b depth max_depth) = Inr [rb', ra']"
proof (induction k arbitrary: depth)
  case 0
  then have top: "max_depth < depth + 1" by simp
  have "fst (get_subcategories osw_obj b (depth + 1) max_depth) = Inr []"
    and "fst (get_subcategories osw_obj a (depth + 1) max_depth) = Inr []"
    using top by (simp_all add: get_subcategories_truncated)
  then show ?case
    using get_subcategories_one_child [OF "0.prems"(1) self_a sub_a titles(2) ab(3)]
      get_subcategories_one_child [OF "0.prems"(1) self_b sub_b titles(3) ab(2)]
      ab titles
    by (simp add: unique_by_title_keep_first)
next
  case (Suc k)
  then have "depth + 1 \<le> max_depth" and "nat (max_depth - (depth + 1)) = k" by simp_all
  from Suc.IH [OF this]
  show ?case
    using get_subcategories_one_child [OF Suc.prems(1) self_a sub_a titles(2) ab(3)]
      get_subcategories_one_child [OF Suc.prems(1) self_b sub_b titles(3) ab(2)]
      ab titles
    by (simp add: unique_by_title_keep_first)
qed

text \<open>
  C4. Let the subclass query of \<open>a\<close> return the page \<open>b\<close> and that of \<open>b\<close> return the page
  \<open>a\<close>, two different pages that both can be looked up. \<open>get_subcategories\<close> is a total
  function, and started on \<open>a\<close> with any \<open>max_depth\<close> of at least \<open>0\<close>, so also with
  \<open>10\<close>, it raises nothing and returns exactly two records: the record of \<open>a\<close> from
  its self-lookup, then the record of \<open>b\<close>.
\<close>

theorem cycle_returns_both_once:
  assumes "a \<noteq> b" and "a \<noteq> []" and "b \<noteq> []"
    and "fst (query_return_dict_list osw_obj (self_query a)) = ra # ras"
    and "fst (query_return_dict_list osw_obj (subclass_query a)) = [rb]"
    and "fst (query_return_dict_list osw_obj (self_query b)) = rb' # rbs"
    and "fst (query_return_dict_list osw_obj (subclass_query b)) = [ra']"
    and "title_of ra = Some a" and "title_of rb = Some b"
    and "title_of ra' = Some a" and "title_of rb' = Some b"
    and "0 \<le> max_depth"
  shows "fst (get_subcategories osw_obj a 0 max_depth) = Inr [ra, rb]"
  using cycle_aux [OF assms(1-11) assms(12) refl] by simp

theorem cycle_returns_both_once_witness:
  "fst (get_subcategories cycle_site ''Cat:A'' 0 10) =
     Inr [[(''title'', Some ''Cat:A''), (''name'', Some ''Alpha'')],
          [(''title'', Some ''Cat:B''), (''name'', Some ''Beta'')]]"
proof -
  let ?a = "[(''title'', Some ''Cat:A''), (''name'', Some ''Alpha'')]"
  let ?b = "[(''title'', Some ''Cat:B''), (''name'', Some ''Beta'')]"
  have 1: "''Cat:A'' \<noteq> ''Cat:B''" "''Cat:A'' \<noteq> []" "''Cat:B'' \<noteq> []" by simp_all
  have 2: "fst (query_return_dict_list cycle_site (self_query ''Cat:A'')) = ?a # []"
    "fst (query_return_dict_list cycle_site (subclass_query ''Cat:A'')) = [?b]"
    "fst (query_return_dict_list cycle_site (self_query ''Cat:B'')) = ?b # []"
    "fst (query_return_dict_list cycle_site (subclass_query ''Cat:B'')) = [?a]"
    by (simp_all add: cycle_site_def site_eval)
  have 3: "title_of ?a = Some ''Cat:A''" "title_of ?b = Some ''Cat:B''"
    by (simp_all add: dict_get_def)
  have 4: "(0::int) \<le> 10" by simp
  show ?thesis
    using cycle_returns_both_once [OF 1 2 3 3 4] .
qed

section \<open>The depth bound\<close>

lemma subclass_chain_titles:
  "subclass_chain osw_obj nodes \<Longrightarrow> p \<in> set nodes \<Longrightarrow>
     title_of (snd p) = Some (fst p) \<and> fst p \<noteq> []"
  by (induction nodes) auto

lemma unique_by_title_chain:
  assumes "\<forall>p\<in>set nodes. title_of (snd p) = Some (fst p) \<and> fst p \<noteq> []"
    and "distinct (map fst nodes)"
    and "fst ` set nodes \<inter> seen = {}"
  shows "keep_first seen (map snd nodes) = map snd nodes"
proof (rule keep_first_id)
  have some: "distinct (map Some ys) = distinct ys" for ys :: "string list"
    by (simp add: distinct_map)
  have "map title_of (map snd nodes) = map Some (map fst nodes)"
    using assms(1) by (induction nodes) auto
  then show "distinct (map title_of (map snd nodes))"
    using assms(2) some [of "map fst nodes"] by (simp only:)
  show "\<forall>x\<in>set (map snd nodes). \<exists>t. title_of x = Some t \<and> t \<noteq> [] \<and> t \<notin> seen"
    using assms(1,3) by fastforce
qed

lemma get_subcategories_with_child:
  assumes "depth \<le> max_depth"
    and "take 1 (fst (query_return_dict_list osw_obj (self_query category_fpt))) = [r]"
    and "fst (query_return_dict_list osw_obj (subclass_query category_fpt)) = [child]"
    and "title_of child = Some t" and "t \<noteq> []"
    and "get_subcategories osw_obj t (depth + 1) max_depth = (Inr subs, ev)"
  shows "get_subcategories osw_obj category_fpt depth max_depth
           = (Inr (unique_by_title (r # child # subs)),
              Ask (self_query category_fpt) # Ask (subclass_query category_fpt) # ev)"
proof -
  obtain rs where "fst (query_return_dict_list osw_obj (self_query category_fpt)) = r # rs"
    using assms(2)
    by (cases "fst (query_return_dict_list osw_obj (self_query category_fpt))") auto
  from get_subcategories_found [OF assms(1) this] show ?thesis
    unfolding assms(3) descend_single [OF assms(4,5)] assms(6) by simp
qed

lemma get_subcategories_leaf:
  assumes "depth \<le> max_depth"
    and "take 1 (fst (query_return_dict_list osw_obj (self_query category_fpt))) = [r]"
    and "fst (query_return_dict_list osw_obj (subclass_query category_fpt)) = []"
  shows "get_subcategories osw_obj category_fpt depth max_depth
           = (Inr (unique_by_title [r]),
              [Ask (self_query category_fpt), Ask (subclass_query category_fpt)])"
proof -
  obtain rs where "fst (query_return_dict_list osw_obj (self_query category_fpt)) = r # rs"
    using assms(2)
    by (cases "fst (query_return_dict_list osw_obj (self_query category_fpt))") auto
  from get_subcategories_found [OF assms(1) this] show ?thesis
    unfolding assms(3) by simp
qed

lemma chain_aux:
  "subclass_chain osw_obj ((t, e) # nodes) \<Longrightarrow> distinct (map fst ((t, e) # nodes)) \<Longrightarrow>
   depth \<le> max_depth \<Longrightarrow>
     \<exists>ev. get_subcategories osw_obj t depth max_depth =
            (Inr (e # map snd (take (nat (max_depth - depth) + 1) nodes)), ev)
        \<and> filter is_warning ev =
            (if nat (max_depth - depth) < length nodes
             then [Warning max_depth (fst (nodes ! nat (max_depth - depth)))] else [])"
proof (induction nodes arbitrary: t e depth)
  case Nil
  then show ?case
    using get_subcategories_leaf [of depth max_depth osw_obj t e]
    by (simp add: unique_by_title_keep_first)
next
  case (Cons p nodes)
  obtain t' e' where p: "p = (t', e')" by (cases p)
  have chain': "subclass_chain osw_obj ((t', e') # nodes)"
    and dist': "distinct (map fst ((t', e') # nodes))"
    using Cons.prems p by simp_all
  have te: "t \<noteq> []" "title_of e = Some t" "t' \<noteq> []" "title_of e' = Some t'" "t \<noteq> t'"
    using Cons.prems p by auto
  have self: "take 1 (fst (query_return_dict_list osw_obj (self_query t))) = [e]"
    and sub: "fst (query_return_dict_list osw_obj (subclass_query t)) = [e']"
    using Cons.prems p by simp_all
  show ?case
  proof (cases "depth + 1 \<le> max_depth")
    case False
    then have top: "max_depth < depth + 1" and zero: "nat (max_depth - depth) = 0"
      using Cons.prems(3) by simp_all
    have "get_subcategories osw_obj t depth max_depth =
            (Inr (unique_by_title [e, e']),
             [Ask (self_query t), Ask (subclass_query t), Warning max_depth t'])"
      using get_subcategories_with_child [OF Cons.prems(3) self sub te(4,3)
          get_subcategories_truncated [OF top]]
      by simp
    then show ?thesis using te zero p by (simp add: unique_by_title_keep_first)
  next
    case True
    let ?k = "nat (max_depth - (depth + 1))"
    from Cons.IH [OF chain' dist' True]
    obtain ev where ev: "get_subcategories osw_obj t' (depth + 1) max_depth =
            (Inr (e' # map snd (take (?k + 1) nodes)), ev)"
      and w: "filter is_warning ev =
            (if ?k < length nodes then [Warning max_depth (fst (nodes ! ?k))] else [])"
      by blast
    have k: "nat (max_depth - depth) = Suc ?k" using True by simp
    let ?kept = "take (?k + 1) nodes"
    have titles: "\<forall>q\<in>set ?kept. title_of (snd q) = Some (fst q) \<and> fst q \<noteq> []"
      using subclass_chain_titles [OF chain'] by (auto dest: in_set_takeD)
    have "distinct (map fst ?kept)"
      using dist' by (simp add: distinct_take take_map [symmetric])
    moreover have "fst ` set ?kept \<inter> {t, t'} = {}"
      using Cons.prems(2) p by (auto dest!: in_set_takeD)
    ultimately have kept: "keep_first {t, t'} (map snd ?kept) = map snd ?kept"
      using unique_by_title_chain [OF titles] by blast
    have "unique_by_title (e # e' # e' # map snd ?kept) = e # e' # map snd ?kept"
      using te kept by (simp add: unique_by_title_keep_first insert_commute)
    then have "get_subcategories osw_obj t depth max_depth =
            (Inr (e # e' # map snd ?kept),
             Ask (self_query t) # Ask (subclass_query t) # ev)"
      using get_subcategories_with_child [OF Cons.prems(3) self sub te(4,3) ev] by simp
    then show ?thesis using w k p by simp
  qed
qed

text \<open>
  C2, as stated, fails: on the chain of the three pages \<^verbatim>\<open>Cat:A\<close>, \<^verbatim>\<open>Cat:B\<close>, \<^verbatim>\<open>Cat:C\<close> with
  \<open>max_depth = 1\<close>, the page \<^verbatim>\<open>Cat:C\<close> at depth \<open>2\<close> is in the result.
\<close>

theorem chain_keeps_node_below_bound:
  "fst (get_subcategories chain_site ''Cat:A'' 0 1) =
     Inr [[(''title'', Some ''Cat:A''), (''name'', Some ''Alpha'')],
          [(''title'', Some ''Cat:B''), (''name'', Some ''Beta'')],
          [(''title'', Some ''Cat:C''), (''name'', Some ''Gamma'')]]"
  by (simp add: get_subcategories.simps chain_site_def site_eval unique_by_title_def)

text \<open>
  C2, as the code has it. A call with \<open>depth > max_depth\<close> sends no query: it logs the
  warning that names its category and returns the empty list. The children of a page are
  appended from its subclass query before the calls for them are made, so a page at
  depth \<open>max_depth + 1\<close> is returned although the call for it is cut off. On a subclass
  chain and with \<open>max_depth\<close> of at least \<open>0\<close>, \<open>get_subcategories\<close> therefore returns the
  first \<open>max_depth + 2\<close> pages of the chain and no page behind them, and logs exactly one
  warning, for the page at depth \<open>max_depth + 1\<close>, when the chain has one, and none
  otherwise. For a chain of \<open>L\<close> pages and \<open>max_depth = L - 2\<close> this is the whole chain,
  and the one warning names its last page.
\<close>

theorem depth_bound_on_chain:
  assumes "subclass_chain osw_obj nodes" and "distinct (map fst nodes)" and "nodes \<noteq> []"
    and "0 \<le> max_depth"
  shows "fst (get_subcategories osw_obj (fst (hd nodes)) 0 max_depth) =
           Inr (map snd (take (nat max_depth + 2) nodes))
       \<and> filter is_warning (snd (get_subcategories osw_obj (fst (hd nodes)) 0 max_depth)) =
           (if nat max_depth + 1 < length nodes
            then [Warning max_depth (fst (nodes ! (nat max_depth + 1)))] else [])
       \<and> (max_depth = int (length nodes) - 2 \<longrightarrow>
            fst (get_subcategories osw_obj (fst (hd nodes)) 0 max_depth) = Inr (map snd nodes)
            \<and> filter is_warning (snd (get_subcategories osw_obj (fst (hd nodes)) 0 max_depth)) =
                [Warning max_depth (fst (last nodes))])
       \<and> (\<forall>category_fpt depth. max_depth < depth \<longrightarrow>
            get_subcategories osw_obj category_fpt depth max_depth =
              (Inr [], [Warning max_depth category_fpt]))"
proof -
  obtain t e rest where nodes: "nodes = (t, e) # rest"
    using assms(3) by (cases nodes) auto
  from chain_aux [of osw_obj t e rest 0 max_depth] assms(1,2,4)
  obtain ev where ev: "get_subcategories osw_obj t 0 max_depth =
            (Inr (e # map snd (take (nat max_depth + 1) rest)), ev)"
    and w: "filter is_warning ev =
            (if nat max_depth < length rest
             then [Warning max_depth (fst (rest ! nat max_depth))] else [])"
    unfolding nodes by auto
  have 1: "fst (get_subcategories osw_obj (fst (hd nodes)) 0 max_depth) =
           Inr (map snd (take (nat max_depth + 2) nodes))"
    using ev nodes by simp
  have 2: "filter is_warning (snd (get_subcategories osw_obj (fst (hd nodes)) 0 max_depth)) =
           (if nat max_depth + 1 < length nodes
            then [Warning max_depth (fst (nodes ! (nat max_depth + 1)))] else [])"
    using ev w nodes by simp
  have 3: "fst (get_subcategories osw_obj (fst (hd nodes)) 0 max_depth) = Inr (map snd nodes)
            \<and> filter is_warning (snd (get_subcategories osw_obj (fst (hd nodes)) 0 max_depth)) =
                [Warning max_depth (fst (last nodes))]"
    if L: "max_depth = int (length nodes) - 2"
  proof -
    have n: "nat max_depth + 2 = length nodes" using L assms(4) by simp
    then have "length nodes - 1 = nat max_depth + 1" by simp
    then have "nodes ! (nat max_depth + 1) = last nodes"
      using last_conv_nth [OF assms(3)] by metis
    then show ?thesis using 1 2 n by simp
  qed
  show ?thesis using 1 2 3 by (simp add: get_subcategories_truncated)
qed

theorem depth_bound_on_chain_witness:
  "fst (get_subcategories chain_site ''Cat:A'' 0 1) =
     Inr [[(''title'', Some ''Cat:A''), (''name'', Some ''Alpha'')],
          [(''title'', Some ''Cat:B''), (''name'', Some ''Beta'')],
          [(''title'', Some ''Cat:C''), (''name'', Some ''Gamma'')]]
   \<and> filter is_warning (snd (get_subcategories chain_site ''Cat:A'' 0 1)) =
       [Warning 1 ''Cat:C'']
   \<and> get_subcategories chain_site ''Cat:C'' 2 1 = (Inr [], [Warning 1 ''Cat:C''])"
proof -
  let ?nodes = "[(''Cat:A'', [(''title'', Some ''Cat:A''), (''name'', Some ''Alpha'')]),
                 (''Cat:B'', [(''title'', Some ''Cat:B''), (''name'', Some ''Beta'')]),
                 (''Cat:C'', [(''title'', Some ''Cat:C''), (''name'', Some ''Gamma'')])]"
  have 1: "subclass_chain chain_site ?nodes"
    by (simp add: chain_site_def site_eval)
  have 2: "distinct (map fst ?nodes)" by simp
  have 3: "?nodes \<noteq> []" by simp
  have 4: "(0::int) \<le> 1" by simp
  show ?thesis
    using depth_bound_on_chain [OF 1 2 3 4] by simp
qed

end
